theory Spec2Isabelle
  imports
    Complex_Main
    "HOL-Library.Char_ord"
    "HOL-Library.List_Lexorder"
    "HOL-Library.Log_Nat"
    "HOL-Library.Multiset"
begin

section \<open>Data model (lib/database.ts, lines 1-23)\<close>

text \<open>
  The TypeScript interfaces become records.  Two interfaces share field names, so the
  fields of \<open>User\<close> carry the prefix \<open>user_\<close> and those of \<open>Balance\<close> the prefix
  \<open>balance_\<close>; the argument types \<open>Omit<User, 'id' | 'createdAt'>\<close> and
  \<open>Omit<Balance, 'id' | 'createdAt'>\<close> keep the plain field names of the source.

  A \<open>Date\<close> is its time value (milliseconds since the epoch, what \<open>getTime()\<close>
  returns); only valid dates are modelled, which is what \<open>new Date()\<close> produces.
  A string is a \<open>char list\<close>, compared lexicographically, as IndexedDB compares string keys.
\<close>

type_synonym Date = int

text \<open>
  A JavaScript \<open>number\<close> is an IEEE 754 binary64 value.  Finite values are carried as the
  rational they denote (the two zeros are identified); the other values are the two
  infinities and NaN.
\<close>

datatype number = Finite rat | PosInfinity | NegInfinity | NaN

record UserFields =
  name :: string
  phone :: string
  address :: string
  idNumber :: string

record User =
  user_id :: string
  user_name :: string
  user_phone :: string
  user_address :: string
  user_idNumber :: string
  user_createdAt :: Date

record BalanceFields =
  userId :: string
  amount :: number
  month :: string
  description :: "string option"

record Balance =
  balance_id :: string
  balance_userId :: string
  balance_amount :: number
  balance_month :: string
  balance_description :: "string option"
  balance_createdAt :: Date

record ExportData =
  users :: "User list"
  balances :: "Balance list"
  exportDate :: Date

section \<open>The object stores of IndexedDB\<close>

text \<open>
  \<open>DatabaseService\<close> keeps its data in two IndexedDB object stores.  An object store holds
  records in ascending order of their primary key (the value at the key path), and that is
  the order in which \<open>getAll()\<close> returns them; a store is therefore a list of records sorted
  by key.  The operations below follow the IndexedDB standard for a store with an in-line
  key (\<open>keyPath\<close>) and one unique index:
  \<^item> \<open>add\<close> fails with \<open>ConstraintError\<close> when a record with the same key exists, or when a
    record with the same value under the unique index exists;
  \<^item> \<open>put\<close> first removes the record with the same key, if any, and then fails with
    \<open>ConstraintError\<close> when another record has the same value under the unique index;
  \<^item> \<open>clear\<close> removes every record.
  Non-unique indexes never reject a record and are not part of the state.
\<close>

datatype error =
    ConstraintError
  | TransactionError
  | InvalidFileFormat
  | SyntaxError
  | TypeError

definition idb_add ::
  "('r \<Rightarrow> 'k::linorder) \<Rightarrow> ('r \<Rightarrow> 'i) \<Rightarrow> 'r \<Rightarrow> 'r list \<Rightarrow> error + 'r list" where
  "idb_add key uniq r st =
     (if key r \<in> key ` set st \<or> uniq r \<in> uniq ` set st then Inl ConstraintError
      else Inr (insort_key key r st))"

definition idb_put ::
  "('r \<Rightarrow> 'k::linorder) \<Rightarrow> ('r \<Rightarrow> 'i) \<Rightarrow> 'r \<Rightarrow> 'r list \<Rightarrow> error + 'r list" where
  "idb_put key uniq r st =
     (let st' = filter (\<lambda>x. key x \<noteq> key r) st
      in if uniq r \<in> uniq ` set st' then Inl ConstraintError
         else Inr (insort_key key r st'))"

definition idb_clear :: "'r list \<Rightarrow> 'r list" where
  "idb_clear st = []"

definition idb_getAll :: "'r list \<Rightarrow> 'r list" where
  "idb_getAll st = st"

definition idb_get :: "('r \<Rightarrow> 'k) \<Rightarrow> 'k \<Rightarrow> 'r list \<Rightarrow> 'r option" where
  "idb_get key k st = find (\<lambda>r. key r = k) st"

definition idb_index_getAll :: "('r \<Rightarrow> 'v) \<Rightarrow> 'v \<Rightarrow> 'r list \<Rightarrow> 'r list" where
  "idb_index_getAll ix v st = filter (\<lambda>r. ix r = v) st"

text \<open>
  A run of \<open>add\<close> requests placed in one transaction (the \<open>forEach\<close> loops of \<open>importData\<close>):
  the requests are executed in the order in which they were placed, and the first one that
  fails aborts the transaction.
\<close>

fun idb_addAll ::
  "('r \<Rightarrow> 'k::linorder) \<Rightarrow> ('r \<Rightarrow> 'i) \<Rightarrow> 'r list \<Rightarrow> 'r list \<Rightarrow> error + 'r list" where
  "idb_addAll key uniq [] st = Inr st"
| "idb_addAll key uniq (r # rs) st =
     (case idb_add key uniq r st of
        Inl e \<Rightarrow> Inl e
      | Inr st' \<Rightarrow> idb_addAll key uniq rs st')"

section \<open>DatabaseService (lib/database.ts, lines 25-203)\<close>

text \<open>
  The state of the database is the content of the two object stores that \<open>initDB\<close> creates
  (lines 46-58): \<open>users\<close> with key path \<open>id\<close> and the unique index \<open>idNumber\<close>, and
  \<open>balances\<close> with key path \<open>id\<close> and the unique index \<open>userMonth\<close> on
  \<open>[userId, month]\<close>.  Opening the database is taken to succeed.
\<close>

record DB =
  userStore :: "User list"
  balanceStore :: "Balance list"

definition emptyDB :: DB where
  "emptyDB = \<lparr>userStore = [], balanceStore = []\<rparr>"

definition userMonth :: "Balance \<Rightarrow> string \<times> string" where
  "userMonth b = (balance_userId b, balance_month b)"

text \<open>
  \<open>addUser\<close> (lines 64-80).  The results of \<open>crypto.randomUUID()\<close> and \<open>new Date()\<close> are
  arguments.  A failed request aborts its transaction, so the store is unchanged, and the
  promise is rejected with the error of the request.
\<close>

definition addUser :: "string \<Rightarrow> Date \<Rightarrow> DB \<Rightarrow> UserFields \<Rightarrow> (error + User) \<times> DB" where
  "addUser uuid now db user =
     (let newUser = \<lparr>user_id = uuid, user_name = name user, user_phone = phone user,
                      user_address = address user, user_idNumber = idNumber user,
                      user_createdAt = now\<rparr>
      in case idb_add user_id user_idNumber newUser (userStore db) of
           Inl e \<Rightarrow> (Inl e, db)
         | Inr st \<Rightarrow> (Inr newUser, db\<lparr>userStore := st\<rparr>))"

definition getAllUsers :: "DB \<Rightarrow> User list" where
  "getAllUsers db = idb_getAll (userStore db)"

definition getUserById :: "DB \<Rightarrow> string \<Rightarrow> User option" where
  "getUserById db i = idb_get user_id i (userStore db)"

text \<open>\<open>addBalance\<close> (lines 107-123).\<close>

definition addBalance ::
  "string \<Rightarrow> Date \<Rightarrow> DB \<Rightarrow> BalanceFields \<Rightarrow> (error + Balance) \<times> DB" where
  "addBalance uuid now db balance =
     (let newBalance = \<lparr>balance_id = uuid, balance_userId = userId balance,
                         balance_amount = amount balance, balance_month = month balance,
                         balance_description = description balance,
                         balance_createdAt = now\<rparr>
      in case idb_add balance_id userMonth newBalance (balanceStore db) of
           Inl e \<Rightarrow> (Inl e, db)
         | Inr st \<Rightarrow> (Inr newBalance, db\<lparr>balanceStore := st\<rparr>))"

definition getBalancesByUserId :: "DB \<Rightarrow> string \<Rightarrow> Balance list" where
  "getBalancesByUserId db u = idb_index_getAll balance_userId u (balanceStore db)"

definition getAllBalances :: "DB \<Rightarrow> Balance list" where
  "getAllBalances db = idb_getAll (balanceStore db)"

text \<open>\<open>updateBalance\<close> (lines 150-160): one \<open>put\<close> request.\<close>

definition updateBalance :: "DB \<Rightarrow> Balance \<Rightarrow> (error + Balance) \<times> DB" where
  "updateBalance db balance =
     (case idb_put balance_id userMonth balance (balanceStore db) of
        Inl e \<Rightarrow> (Inl e, db)
      | Inr st \<Rightarrow> (Inr balance, db\<lparr>balanceStore := st\<rparr>))"

text \<open>\<open>exportData\<close> (lines 163-174); the result of \<open>new Date()\<close> is an argument.\<close>

definition exportData :: "Date \<Rightarrow> DB \<Rightarrow> ExportData" where
  "exportData now db =
     \<lparr>users = getAllUsers db, balances = getAllBalances db, exportDate = now\<rparr>"

text \<open>
  \<open>importData\<close> (lines 176-202): one read-write transaction over both stores that clears
  them and then adds every user and every balance.  No request has an error handler, so
  the first failing \<open>add\<close> aborts the transaction: every change made in it, the two
  \<open>clear\<close>s included, is undone, and \<open>transaction.onerror\<close> rejects the promise with
  \<open>transaction.error\<close>, written \<open>TransactionError\<close>.  The transaction commits, and the
  promise resolves, when every request has succeeded.
\<close>

definition importData :: "DB \<Rightarrow> ExportData \<Rightarrow> (error + unit) \<times> DB" where
  "importData db data =
     (case idb_addAll user_id user_idNumber (users data) (idb_clear (userStore db)) of
        Inl e \<Rightarrow> (Inl TransactionError, db)
      | Inr us \<Rightarrow>
          (case idb_addAll balance_id userMonth (balances data)
                  (idb_clear (balanceStore db)) of
             Inl e \<Rightarrow> (Inl TransactionError, db)
           | Inr bs \<Rightarrow> (Inr (), \<lparr>userStore = us, balanceStore = bs\<rparr>)))"

text \<open>
  The invariant of an object store: records sorted by key, keys distinct, values under the
  unique index distinct.  The empty database satisfies it and every operation keeps it.
\<close>

definition wf_store :: "('r \<Rightarrow> 'k::linorder) \<Rightarrow> ('r \<Rightarrow> 'i) \<Rightarrow> 'r list \<Rightarrow> bool" where
  "wf_store key uniq st \<longleftrightarrow>
     sorted (map key st) \<and> distinct (map key st) \<and> distinct (map uniq st)"

definition wf_db :: "DB \<Rightarrow> bool" where
  "wf_db db \<longleftrightarrow>
     wf_store user_id user_idNumber (userStore db) \<and>
     wf_store balance_id userMonth (balanceStore db)"

section \<open>Addition of JavaScript numbers\<close>

text \<open>
  \<open>sum + b.amount\<close> is the addition of IEEE 754 binary64 values: the exact sum, rounded to
  the nearest representable value, ties to the value with an even significand.  For a
  positive rational \<open>n / d\<close>, \<open>ilog2 n d\<close> is the exponent \<open>e\<close> with
  \<open>2 ^ e \<le> n / d < 2 ^ (e + 1)\<close>; the spacing of the representable values around
  \<open>n / d\<close> is \<open>2 ^ p\<close> with \<open>p = max (e - 52) (- 1074)\<close> (53 significant bits, and the
  subnormal spacing at the bottom of the range); the result is the multiple of \<open>2 ^ p\<close>
  nearest to \<open>n / d\<close>, and it overflows to an infinity when it reaches \<open>2 ^ 1024\<close>.
\<close>

definition ilog2 :: "int \<Rightarrow> int \<Rightarrow> int" where
  "ilog2 n d =
     (let k = int (floorlog 2 (nat n)) - int (floorlog 2 (nat d))
      in if (if 0 \<le> k then 2 ^ nat k * d \<le> n else d \<le> 2 ^ nat (- k) * n) then k
         else k - 1)"

definition round_half_even :: "int \<Rightarrow> int \<Rightarrow> int" where
  "round_half_even n d =
     (let f = n div d; r = n mod d
      in if 2 * r < d then f else if d < 2 * r then f + 1
         else if even f then f else f + 1)"

definition round_binary64 :: "rat \<Rightarrow> number" where
  "round_binary64 q =
     (if q = 0 then Finite 0
      else let (n, d) = quotient_of \<bar>q\<bar>;
               e = ilog2 n d;
               p = max (e - 52) (- 1074);
               m = (if 0 \<le> p then round_half_even n (d * 2 ^ nat p)
                    else round_half_even (n * 2 ^ nat (- p)) d);
               r = of_int m * 2 powi p
           in if 2 ^ 1024 \<le> r then (if 0 < q then PosInfinity else NegInfinity)
              else Finite (sgn q * r))"

fun js_add :: "number \<Rightarrow> number \<Rightarrow> number" where
  "js_add (Finite a) (Finite b) = round_binary64 (a + b)"
| "js_add NaN _ = NaN"
| "js_add _ NaN = NaN"
| "js_add PosInfinity NegInfinity = NaN"
| "js_add NegInfinity PosInfinity = NaN"
| "js_add PosInfinity _ = PosInfinity"
| "js_add _ PosInfinity = PosInfinity"
| "js_add NegInfinity _ = NegInfinity"
| "js_add _ NegInfinity = NegInfinity"

text \<open>
  A list of numbers is exactly summable from \<open>s\<close> when every number is finite and no
  addition of the running sum rounds.
\<close>

fun exactly_summable :: "rat \<Rightarrow> number list \<Rightarrow> bool" where
  "exactly_summable s [] = True"
| "exactly_summable s (Finite a # xs) =
     (round_binary64 (s + a) = Finite (s + a) \<and> exactly_summable (s + a) xs)"
| "exactly_summable s (_ # xs) = False"

fun finite_value :: "number \<Rightarrow> rat" where
  "finite_value (Finite a) = a"
| "finite_value _ = 0"

section \<open>Reports (the component in part_000, imported as components/Reports)\<close>

record UserBalanceSummary =
  user :: User
  totalBalance :: number
  balanceCount :: nat
  lastBalance :: "Balance option"

text \<open>
  \<open>xs.sort((a, b) => new Date(b.createdAt).getTime() - new Date(a.createdAt).getTime())\<close>
  (lines 27-28 and 157): \<open>Array.prototype.sort\<close> is stable, and the comparator puts the
  later \<open>createdAt\<close> first, so the result is the stable sort by descending \<open>createdAt\<close>.
\<close>

definition sortByCreatedAtDesc :: "Balance list \<Rightarrow> Balance list" where
  "sortByCreatedAtDesc bs = sort_key (\<lambda>b. - balance_createdAt b) bs"

text \<open>
  The callback of \<open>users.map\<close> in the effect (lines 24-37).  \<open>xs[0] || null\<close> is \<open>null\<close>
  for the empty array and the first element otherwise.
\<close>

definition userSummary :: "Balance list \<Rightarrow> User \<Rightarrow> UserBalanceSummary" where
  "userSummary bs u =
     (let userBalances = filter (\<lambda>b. balance_userId b = user_id u) bs;
          total = foldl (\<lambda>sum b. js_add sum (balance_amount b)) (Finite 0) userBalances;
          lastB = (case sortByCreatedAtDesc userBalances of [] \<Rightarrow> None | b # _ \<Rightarrow> Some b)
      in \<lparr>user = u, totalBalance = total, balanceCount = length userBalances,
          lastBalance = lastB\<rparr>)"

text \<open>The amounts that the callback adds up for a user, in the order of the list.\<close>

definition userAmounts :: "Balance list \<Rightarrow> User \<Rightarrow> number list" where
  "userAmounts bs u = map balance_amount (filter (\<lambda>b. balance_userId b = user_id u) bs)"

text \<open>
  A row of the table of recent entries (lines 159-177): the name of the user found by
  \<open>users.find(u => u.id === balance.userId)\<close>, or \<open>'Unknown User'\<close> when \<open>find\<close> returns
  \<open>undefined\<close> (or the name is the empty string); the month, the amount, the description
  or \<open>'-'\<close>, and the creation date of the balance.
\<close>

record RecentRow =
  row_key :: string
  row_user :: string
  row_month :: string
  row_amount :: number
  row_description :: string
  row_createdAt :: Date

definition recentRow :: "User list \<Rightarrow> Balance \<Rightarrow> RecentRow" where
  "recentRow us b =
     \<lparr>row_key = balance_id b,
      row_user = (case find (\<lambda>u. user_id u = balance_userId b) us of
                    None \<Rightarrow> ''Unknown User''
                  | Some u \<Rightarrow> if user_name u = [] then ''Unknown User'' else user_name u),
      row_month = balance_month b,
      row_amount = balance_amount b,
      row_description = (case balance_description b of
                           None \<Rightarrow> ''-''
                         | Some d \<Rightarrow> if d = [] then ''-'' else d),
      row_createdAt = balance_createdAt b\<rparr>"

definition recentEntries :: "User list \<Rightarrow> Balance list \<Rightarrow> RecentRow list" where
  "recentEntries us bs = map (recentRow us) (take 10 (sortByCreatedAtDesc bs))"

text \<open>
  The component.  Rendering evaluates \<open>balances.sort(...)\<close> (line 157) when the array is not
  empty, and \<open>sort\<close> sorts the array of the property in place; the effect (lines 23-41)
  runs after the render, on the same array, so it reads the balances in the order in which
  the render has left them.
\<close>

record ReportsView =
  userSummaries :: "UserBalanceSummary list"
  grandTotal :: number
  recent :: "RecentRow list"

definition rendered :: "Balance list \<Rightarrow> Balance list" where
  "rendered bs = (if length bs > 0 then sortByCreatedAtDesc bs else bs)"

definition Reports :: "User list \<Rightarrow> Balance list \<Rightarrow> ReportsView" where
  "Reports us bs =
     \<lparr>userSummaries = map (userSummary (rendered bs)) us,
      grandTotal = foldl (\<lambda>sum b. js_add sum (balance_amount b)) (Finite 0) (rendered bs),
      recent = (if length bs > 0 then recentEntries us bs else [])\<rparr>"

section \<open>DataManagement.handleImport (part_001, lines 50-82)\<close>









section \<open>Example data\<close>

definition user_A :: User where
  "user_A = \<lparr>user_id = ''u-1'', user_name = ''A'', user_phone = ''555'',
              user_address = ''1 Main St'', user_idNumber = ''123'', user_createdAt = 1000\<rparr>"

definition balance_A1 :: Balance where
  "balance_A1 = \<lparr>balance_id = ''b-1'', balance_userId = ''u-1'', balance_amount = Finite 100,
                  balance_month = ''2024-01'', balance_description = None,
                  balance_createdAt = 2000\<rparr>"

definition db_A :: DB where
  "db_A = \<lparr>userStore = [user_A], balanceStore = [balance_A1]\<rparr>"

definition input_B :: UserFields where
  "input_B = \<lparr>name = ''B'', phone = ''556'', address = ''2 Main St'', idNumber = ''456''\<rparr>"

definition input_A2 :: BalanceFields where
  "input_A2 = \<lparr>userId = ''u-1'', amount = Finite 50, month = ''2024-02'',
                description = Some ''rent''\<rparr>"

definition user_B :: User where
  "user_B = \<lparr>user_id = ''u-2'', user_name = ''B'', user_phone = ''556'',
              user_address = ''2 Main St'', user_idNumber = ''456'', user_createdAt = 3000\<rparr>"

definition balance_A2 :: Balance where
  "balance_A2 = \<lparr>balance_id = ''b-2'', balance_userId = ''u-1'', balance_amount = Finite 50,
                  balance_month = ''2024-02'', balance_description = Some ''rent'',
                  balance_createdAt = 3000\<rparr>"

definition user_C :: User where
  "user_C = \<lparr>user_id = ''u-3'', user_name = ''C'', user_phone = ''557'',
              user_address = ''3 Main St'', user_idNumber = ''789'', user_createdAt = 1500\<rparr>"

definition balance_X :: Balance where
  "balance_X = \<lparr>balance_id = ''b-9'', balance_userId = ''u-9'', balance_amount = Finite 7,
                 balance_month = ''2024-03'', balance_description = Some [],
                 balance_createdAt = 2500\<rparr>"

definition big_1 :: Balance where
  "big_1 = \<lparr>balance_id = ''c-1'', balance_userId = ''u-1'',
             balance_amount = Finite 9007199254740992, balance_month = ''2024-01'',
             balance_description = None, balance_createdAt = 2000\<rparr>"

definition one_2 :: Balance where
  "one_2 = \<lparr>balance_id = ''c-2'', balance_userId = ''u-1'', balance_amount = Finite 1,
             balance_month = ''2024-02'', balance_description = None,
             balance_createdAt = 2000\<rparr>"

definition one_3 :: Balance where
  "one_3 = \<lparr>balance_id = ''c-3'', balance_userId = ''u-1'', balance_amount = Finite 1,
             balance_month = ''2024-03'', balance_description = None,
             balance_createdAt = 2000\<rparr>"

section \<open>Properties of the object stores\<close>

lemma idb_add_Inr_iff:
  "idb_add key uniq r st = Inr st' \<longleftrightarrow>
     key r \<notin> key ` set st \<and> uniq r \<notin> uniq ` set st \<and> st' = insort_key key r st"
  by (auto simp: idb_add_def)

lemma idb_add_Inl_iff:
  "idb_add key uniq r st = Inl e \<longleftrightarrow>
     e = ConstraintError \<and> (key r \<in> key ` set st \<or> uniq r \<in> uniq ` set st)"
  by (auto simp: idb_add_def)

lemma wf_store_insort:
  assumes "wf_store key uniq st" "key r \<notin> key ` set st" "uniq r \<notin> uniq ` set st"
  shows "wf_store key uniq (insort_key key r st)"
proof -
  have "sorted (map key (insort_key key r st))"
    using assms(1) by (simp add: wf_store_def sorted_insort_key)
  moreover have "distinct (map key (insort_key key r st))"
    using assms(1,2) by (simp add: wf_store_def distinct_insort_key)
  moreover have "mset (map uniq (insort_key key r st)) = mset (map uniq (r # st))"
    by simp
  then have "distinct (map uniq (insort_key key r st)) = distinct (map uniq (r # st))"
    by (metis mset_eq_imp_distinct_iff)
  then have "distinct (map uniq (insort_key key r st))"
    using assms(1,3) by (simp add: wf_store_def)
  ultimately show ?thesis by (simp add: wf_store_def)
qed

lemma wf_store_filter:
  "wf_store key uniq st \<Longrightarrow> wf_store key uniq (filter P st)"
  by (auto simp: wf_store_def sorted_filter distinct_map_filter)

lemma wf_store_Nil: "wf_store key uniq []"
  by (simp add: wf_store_def)

lemma idb_addAll_Inl: "idb_addAll key uniq rs st = Inl e \<Longrightarrow> e = ConstraintError"
  by (induction rs arbitrary: st) (auto simp: idb_add_def split: if_splits)

lemma idb_addAll_Inr_iff:
  "idb_addAll key uniq rs st = Inr st' \<longleftrightarrow>
     distinct (map key rs) \<and> distinct (map uniq rs) \<and>
     key ` set rs \<inter> key ` set st = {} \<and> uniq ` set rs \<inter> uniq ` set st = {} \<and>
     st' = fold (insort_key key) rs st"
proof (induction rs arbitrary: st)
  case Nil
  show ?case by auto
next
  case (Cons r rs)
  show ?case
  proof (cases "key r \<in> key ` set st \<or> uniq r \<in> uniq ` set st")
    case True
    then show ?thesis by (auto simp: idb_add_def)
  next
    case False
    then have "idb_addAll key uniq (r # rs) st = idb_addAll key uniq rs (insort_key key r st)"
      by (simp add: idb_add_def)
    with False show ?thesis
      apply (simp add: Cons.IH set_insort_key)
      apply blast
      done
  qed
qed

lemma fold_insort_sorted:
  assumes "sorted (map key st)" "distinct (map key st)"
  shows "fold (insort_key key) st [] = st"
proof -
  have "inj_on key (set st)" using assms(2) by (simp add: distinct_map)
  then have "fold (insort_key key) st [] = sort_key key st"
    by (simp add: sort_key_conv_fold)
  also have "\<dots> = st" using assms(1) by (rule sort_key_id_if_sorted)
  finally show ?thesis .
qed

lemma idb_addAll_wf_store:
  "wf_store key uniq st \<Longrightarrow> idb_addAll key uniq st [] = Inr st"
  by (simp add: idb_addAll_Inr_iff wf_store_def fold_insort_sorted)

lemma idb_put_Inr_iff:
  "idb_put key uniq r st = Inr st' \<longleftrightarrow>
     uniq r \<notin> uniq ` {x \<in> set st. key x \<noteq> key r} \<and>
     st' = insort_key key r (filter (\<lambda>x. key x \<noteq> key r) st)"
  by (auto simp: idb_put_def Let_def)

lemma idb_put_Inl_iff:
  "idb_put key uniq r st = Inl e \<longleftrightarrow>
     e = ConstraintError \<and> uniq r \<in> uniq ` {x \<in> set st. key x \<noteq> key r}"
  by (auto simp: idb_put_def Let_def)

lemma wf_store_idb_add:
  "wf_store key uniq st \<Longrightarrow> idb_add key uniq r st = Inr st' \<Longrightarrow> wf_store key uniq st'"
  by (simp add: idb_add_Inr_iff wf_store_insort)

lemma wf_store_idb_put:
  assumes "wf_store key uniq st" "idb_put key uniq r st = Inr st'"
  shows "wf_store key uniq st'"
proof -
  let ?f = "filter (\<lambda>x. key x \<noteq> key r) st"
  have "wf_store key uniq ?f" using assms(1) by (rule wf_store_filter)
  moreover have "key r \<notin> key ` set ?f" by auto
  moreover have "uniq r \<notin> uniq ` set ?f" using assms(2) by (simp add: idb_put_Inr_iff)
  moreover have "st' = insort_key key r ?f" using assms(2) by (simp add: idb_put_Inr_iff)
  ultimately show ?thesis by (simp add: wf_store_insort)
qed

lemma wf_store_idb_addAll:
  "wf_store key uniq st \<Longrightarrow> idb_addAll key uniq rs st = Inr st' \<Longrightarrow> wf_store key uniq st'"
proof (induction rs arbitrary: st)
  case Nil
  then show ?case by simp
next
  case (Cons r rs)
  then show ?case
    by (auto split: sum.splits dest: wf_store_idb_add)
qed

lemma wf_db_emptyDB: "wf_db emptyDB"
  by (simp add: wf_db_def emptyDB_def wf_store_Nil)

lemma wf_db_addUser: "wf_db db \<Longrightarrow> wf_db (snd (addUser uuid now db input))"
  by (auto simp: addUser_def wf_db_def Let_def split: sum.splits dest: wf_store_idb_add)

lemma wf_db_addBalance: "wf_db db \<Longrightarrow> wf_db (snd (addBalance uuid now db input))"
  by (auto simp: addBalance_def wf_db_def Let_def split: sum.splits dest: wf_store_idb_add)

lemma wf_db_updateBalance: "wf_db db \<Longrightarrow> wf_db (snd (updateBalance db b))"
  by (auto simp: updateBalance_def wf_db_def split: sum.splits dest: wf_store_idb_put)

lemma wf_db_importData: "wf_db db \<Longrightarrow> wf_db (snd (importData db data))"
  by (auto simp: importData_def wf_db_def idb_clear_def split: sum.splits
        dest: wf_store_idb_addAll [OF wf_store_Nil])

lemma idb_addAll_fails_iff:
  "(\<exists>e. idb_addAll key uniq rs [] = Inl e) \<longleftrightarrow>
     \<not> (distinct (map key rs) \<and> distinct (map uniq rs))"
proof -
  have "(\<exists>st'. idb_addAll key uniq rs [] = Inr st') \<longleftrightarrow>
          distinct (map key rs) \<and> distinct (map uniq rs)"
    by (simp add: idb_addAll_Inr_iff)
  then show ?thesis
    by (cases "idb_addAll key uniq rs []") auto
qed

lemma importData_succeeds_iff:
  "fst (importData db data) = Inr () \<longleftrightarrow>
     distinct (map user_id (users data)) \<and> distinct (map user_idNumber (users data)) \<and>
     distinct (map balance_id (balances data)) \<and> distinct (map userMonth (balances data))"
proof (cases "idb_addAll user_id user_idNumber (users data) []")
  case (Inl e)
  then have "\<not> (distinct (map user_id (users data)) \<and>
               distinct (map user_idNumber (users data)))"
    using idb_addAll_fails_iff [of user_id user_idNumber "users data"] by blast
  with Inl show ?thesis by (auto simp: importData_def idb_clear_def)
next
  case us: (Inr us)
  then have du: "distinct (map user_id (users data)) \<and>
                 distinct (map user_idNumber (users data))"
    by (simp add: idb_addAll_Inr_iff)
  show ?thesis
  proof (cases "idb_addAll balance_id userMonth (balances data) []")
    case (Inl e)
    then have "\<not> (distinct (map balance_id (balances data)) \<and>
                 distinct (map userMonth (balances data)))"
      using idb_addAll_fails_iff [of balance_id userMonth "balances data"] by blast
    with Inl us show ?thesis by (auto simp: importData_def idb_clear_def)
  next
    case (Inr bs)
    then have "distinct (map balance_id (balances data)) \<and>
               distinct (map userMonth (balances data))"
      by (simp add: idb_addAll_Inr_iff)
    with Inr us du show ?thesis by (simp add: importData_def idb_clear_def)
  qed
qed

lemma addUser_example:
  "addUser ''u-2'' 3000 db_A input_B = (Inr user_B, db_A\<lparr>userStore := [user_A, user_B]\<rparr>)"
  by (simp add: addUser_def idb_add_def db_A_def user_A_def user_B_def input_B_def Let_def)

lemma addBalance_example:
  "addBalance ''b-2'' 3000 db_A input_A2 =
     (Inr balance_A2, db_A\<lparr>balanceStore := [balance_A1, balance_A2]\<rparr>)"
  by (simp add: addBalance_def idb_add_def db_A_def balance_A1_def balance_A2_def
        input_A2_def userMonth_def Let_def)

section \<open>Claims about DatabaseService\<close>


text \<open>
  Claim C2.  In every state of the database, importing the snapshot that \<open>exportData\<close>
  has just produced succeeds and leaves the database as it was; in particular
  \<open>getAllUsers\<close> and \<open>getAllBalances\<close> return the same collections as before.
\<close>

theorem export_import_roundtrip:
  "wf_db db \<Longrightarrow>
     importData db (exportData now db) = (Inr (), db) \<and>
     set (getAllUsers (snd (importData db (exportData now db)))) = set (getAllUsers db) \<and>
     set (getAllBalances (snd (importData db (exportData now db)))) = set (getAllBalances db)"
  by (simp add: importData_def exportData_def getAllUsers_def getAllBalances_def
        idb_getAll_def idb_clear_def wf_db_def idb_addAll_wf_store)

theorem export_import_roundtrip_witness:
  "wf_db db_A \<and> importData db_A (exportData 5000 db_A) = (Inr (), db_A) \<and>
   set (getAllUsers (snd (importData db_A (exportData 5000 db_A)))) = {user_A} \<and>
   set (getAllBalances (snd (importData db_A (exportData 5000 db_A)))) = {balance_A1}"
proof -
  have wf: "wf_db db_A"
    by (simp add: wf_db_def wf_store_def db_A_def)
  show ?thesis
    using wf export_import_roundtrip [OF wf, of 5000]
    by (simp add: db_A_def getAllUsers_def getAllBalances_def idb_getAll_def)
qed

text \<open>
  Claim C3.  When the store already holds a user with the \<open>idNumber\<close> of the argument,
  \<open>addUser\<close> is rejected with \<open>ConstraintError\<close> and the database (so also the number of
  users) is unchanged.  When the \<open>idNumber\<close> is new, and the identifier that
  \<open>crypto.randomUUID()\<close> returned is not the key of a stored user, \<open>addUser\<close> succeeds: it
  returns a user with that identifier and the creation time read from the clock, the user
  collection gains exactly this record, and the balances are untouched.
\<close>

theorem addUser_unique_idNumber:
  "(idNumber input \<in> user_idNumber ` set (getAllUsers db) \<longrightarrow>
      addUser uuid now db input = (Inl ConstraintError, db)) \<and>
   (idNumber input \<notin> user_idNumber ` set (getAllUsers db) \<and>
    uuid \<notin> user_id ` set (getAllUsers db) \<longrightarrow>
      (\<exists>u db'. addUser uuid now db input = (Inr u, db') \<and>
         user_id u = uuid \<and> user_createdAt u = now \<and> user_idNumber u = idNumber input \<and>
         set (getAllUsers db') = insert u (set (getAllUsers db)) \<and>
         length (getAllUsers db') = Suc (length (getAllUsers db)) \<and>
         getAllBalances db' = getAllBalances db))"
  by (auto simp: addUser_def idb_add_def getAllUsers_def getAllBalances_def idb_getAll_def
        Let_def set_insort_key)

theorem addUser_unique_idNumber_witness:
  "addUser ''u-2'' 3000 db_A (input_B\<lparr>idNumber := ''123''\<rparr>) = (Inl ConstraintError, db_A) \<and>
   (\<exists>u db'. addUser ''u-2'' 3000 db_A input_B = (Inr u, db') \<and>
      user_id u = ''u-2'' \<and> user_createdAt u = 3000 \<and> user_idNumber u = ''456'' \<and>
      set (getAllUsers db') = insert u (set (getAllUsers db_A)) \<and>
      length (getAllUsers db') = 2 \<and> getAllBalances db' = getAllBalances db_A)"
  using addUser_unique_idNumber [where input = "input_B\<lparr>idNumber := ''123''\<rparr>" and db = db_A
      and uuid = "''u-2''" and now = 3000]
    addUser_unique_idNumber [where input = input_B and db = db_A
      and uuid = "''u-2''" and now = 3000]
  by (simp add: input_B_def db_A_def user_A_def getAllUsers_def idb_getAll_def
        numeral_2_eq_2)

text \<open>
  Claim C4.  When the store already holds a balance with the pair \<open>(userId, month)\<close> of the
  argument, \<open>addBalance\<close> is rejected with \<open>ConstraintError\<close> and the database (so also
  the number of balances) is unchanged.  When the pair is new, and the generated identifier
  is not the key of a stored balance, \<open>addBalance\<close> succeeds: it returns a balance with
  that identifier and creation time, the balance collection gains exactly this record, and
  the users are untouched.
\<close>

theorem addBalance_unique_userMonth:
  "((userId input, month input) \<in> userMonth ` set (getAllBalances db) \<longrightarrow>
      addBalance uuid now db input = (Inl ConstraintError, db)) \<and>
   ((userId input, month input) \<notin> userMonth ` set (getAllBalances db) \<and>
    uuid \<notin> balance_id ` set (getAllBalances db) \<longrightarrow>
      (\<exists>b db'. addBalance uuid now db input = (Inr b, db') \<and>
         balance_id b = uuid \<and> balance_createdAt b = now \<and>
         userMonth b = (userId input, month input) \<and>
         set (getAllBalances db') = insert b (set (getAllBalances db)) \<and>
         length (getAllBalances db') = Suc (length (getAllBalances db)) \<and>
         getAllUsers db' = getAllUsers db))"
  by (auto simp: addBalance_def idb_add_def getAllUsers_def getAllBalances_def idb_getAll_def
        Let_def set_insort_key userMonth_def)

theorem addBalance_unique_userMonth_witness:
  "addBalance ''b-2'' 3000 db_A (input_A2\<lparr>month := ''2024-01''\<rparr>) = (Inl ConstraintError, db_A) \<and>
   (\<exists>b db'. addBalance ''b-2'' 3000 db_A input_A2 = (Inr b, db') \<and>
      balance_id b = ''b-2'' \<and> balance_createdAt b = 3000 \<and>
      userMonth b = (''u-1'', ''2024-02'') \<and>
      set (getAllBalances db') = insert b (set (getAllBalances db_A)) \<and>
      length (getAllBalances db') = 2 \<and> getAllUsers db' = getAllUsers db_A)"
  using addBalance_unique_userMonth [where input = "input_A2\<lparr>month := ''2024-01''\<rparr>"
      and db = db_A and uuid = "''b-2''" and now = 3000]
    addBalance_unique_userMonth [where input = input_A2 and db = db_A
      and uuid = "''b-2''" and now = 3000]
  by (simp add: input_A2_def db_A_def balance_A1_def getAllBalances_def idb_getAll_def
        userMonth_def numeral_2_eq_2)

text \<open>
  Claim C9 as stated (\<open>updateBalance\<close> succeeds for every store state and every balance)
  fails: the store holds balance \<open>b-1\<close> of user \<open>u-1\<close> for \<open>2024-01\<close>, and a balance with
  the new \<open>id\<close> \<open>b-2\<close> for the same user and month is rejected by the unique index
  \<open>userMonth\<close>.
\<close>

theorem updateBalance_counterexample:
  "wf_db db_A \<and>
   updateBalance db_A (balance_A1\<lparr>balance_id := ''b-2''\<rparr>) = (Inl ConstraintError, db_A)"
  by (simp add: wf_db_def wf_store_def db_A_def balance_A1_def updateBalance_def idb_put_def
        userMonth_def)

text \<open>
  Claim C9, as amended.  \<open>updateBalance\<close> succeeds exactly when no stored balance with
  another \<open>id\<close> has the \<open>(userId, month)\<close> of the argument; whether a balance with the
  argument's \<open>id\<close> was stored before plays no role.  On success the argument is returned,
  it is the only stored balance with its \<open>id\<close>, every balance with another \<open>id\<close> is
  kept as it was, and the users are untouched.  Otherwise the call is rejected with
  \<open>ConstraintError\<close> and the database is unchanged.
\<close>

theorem updateBalance_upsert:
  "(userMonth b \<notin>
      userMonth ` set (filter (\<lambda>x. balance_id x \<noteq> balance_id b) (getAllBalances db)) \<longrightarrow>
      (\<exists>db'. updateBalance db b = (Inr b, db') \<and>
         set (getAllBalances db') =
           insert b (set (filter (\<lambda>x. balance_id x \<noteq> balance_id b) (getAllBalances db))) \<and>
         getAllUsers db' = getAllUsers db)) \<and>
   (userMonth b \<in>
      userMonth ` set (filter (\<lambda>x. balance_id x \<noteq> balance_id b) (getAllBalances db)) \<longrightarrow>
      updateBalance db b = (Inl ConstraintError, db))"
  by (auto simp: updateBalance_def idb_put_def Let_def getAllBalances_def getAllUsers_def
        idb_getAll_def set_insort_key)

theorem updateBalance_upsert_witness:
  "(\<exists>db'. updateBalance db_A balance_A2 = (Inr balance_A2, db') \<and>
      set (getAllBalances db') = {balance_A2, balance_A1} \<and>
      getAllUsers db' = getAllUsers db_A) \<and>
   (\<exists>db'. updateBalance db_A (balance_A1\<lparr>balance_amount := Finite 75\<rparr>) =
        (Inr (balance_A1\<lparr>balance_amount := Finite 75\<rparr>), db') \<and>
      set (getAllBalances db') = {balance_A1\<lparr>balance_amount := Finite 75\<rparr>} \<and>
      getAllUsers db' = getAllUsers db_A) \<and>
   updateBalance db_A (balance_A2\<lparr>balance_month := ''2024-01''\<rparr>) = (Inl ConstraintError, db_A)"
  using updateBalance_upsert [where db = db_A and b = balance_A2]
    updateBalance_upsert [where db = db_A and b = "balance_A1\<lparr>balance_amount := Finite 75\<rparr>"]
    updateBalance_upsert [where db = db_A and b = "balance_A2\<lparr>balance_month := ''2024-01''\<rparr>"]
  by (simp add: db_A_def balance_A1_def balance_A2_def getAllBalances_def idb_getAll_def
        userMonth_def)

text \<open>
  Claim C10.  The record that a successful \<open>addUser\<close> or \<open>addBalance\<close> returns is the
  argument's fields, unaltered, together with the generated \<open>id\<close> and \<open>createdAt\<close>, and
  that record is the one stored under the generated \<open>id\<close>.
\<close>

theorem add_keeps_supplied_fields:
  "(addUser uuid now db input = (Inr u, db') \<longrightarrow>
      u = \<lparr>user_id = uuid, user_name = name input, user_phone = phone input,
            user_address = address input, user_idNumber = idNumber input,
            user_createdAt = now\<rparr> \<and>
      u \<in> set (getAllUsers db') \<and>
      (\<forall>x \<in> set (getAllUsers db'). user_id x = uuid \<longrightarrow> x = u) \<and>
      getUserById db' uuid = Some u) \<and>
   (addBalance uuid' now' db input' = (Inr b, db'') \<longrightarrow>
      b = \<lparr>balance_id = uuid', balance_userId = userId input',
            balance_amount = amount input', balance_month = month input',
            balance_description = description input', balance_createdAt = now'\<rparr> \<and>
      b \<in> set (getAllBalances db'') \<and>
      (\<forall>x \<in> set (getAllBalances db''). balance_id x = uuid' \<longrightarrow> x = b))"
proof (intro conjI impI)
  assume a: "addUser uuid now db input = (Inr u, db')"
  let ?n = "\<lparr>user_id = uuid, user_name = name input, user_phone = phone input,
            user_address = address input, user_idNumber = idNumber input,
            user_createdAt = now\<rparr>"
  from a have u: "u = ?n" and fresh: "uuid \<notin> user_id ` set (userStore db)"
    and st: "userStore db' = insort_key user_id ?n (userStore db)"
    by (auto simp: addUser_def Let_def idb_add_def split: if_splits)
  show "u = ?n" by (rule u)
  show "u \<in> set (getAllUsers db')"
    by (simp add: getAllUsers_def idb_getAll_def st set_insort_key u)
  show others: "\<forall>x \<in> set (getAllUsers db'). user_id x = uuid \<longrightarrow> x = u"
    using fresh by (auto simp: getAllUsers_def idb_getAll_def st set_insort_key u)
  have "\<exists>x. find (\<lambda>r. user_id r = uuid) (userStore db') = Some x"
    using \<open>u \<in> set (getAllUsers db')\<close> u
    by (cases "find (\<lambda>r. user_id r = uuid) (userStore db')")
       (auto simp: find_None_iff getAllUsers_def idb_getAll_def)
  then obtain x where x: "find (\<lambda>r. user_id r = uuid) (userStore db') = Some x" ..
  then have "x \<in> set (userStore db') \<and> user_id x = uuid"
    by (auto simp: find_Some_iff)
  with others have "x = u" by (simp add: getAllUsers_def idb_getAll_def)
  with x show "getUserById db' uuid = Some u"
    by (simp add: getUserById_def idb_get_def)
next
  assume a: "addBalance uuid' now' db input' = (Inr b, db'')"
  let ?n = "\<lparr>balance_id = uuid', balance_userId = userId input',
            balance_amount = amount input', balance_month = month input',
            balance_description = description input', balance_createdAt = now'\<rparr>"
  from a have b: "b = ?n" and fresh: "uuid' \<notin> balance_id ` set (balanceStore db)"
    and st: "balanceStore db'' = insort_key balance_id ?n (balanceStore db)"
    by (auto simp: addBalance_def Let_def idb_add_def split: if_splits)
  show "b = ?n" by (rule b)
  show "b \<in> set (getAllBalances db'')"
    by (simp add: getAllBalances_def idb_getAll_def st set_insort_key b)
  show "\<forall>x \<in> set (getAllBalances db''). balance_id x = uuid' \<longrightarrow> x = b"
    using fresh by (auto simp: getAllBalances_def idb_getAll_def st set_insort_key b)
qed

theorem add_keeps_supplied_fields_witness:
  "user_B = \<lparr>user_id = ''u-2'', user_name = name input_B, user_phone = phone input_B,
              user_address = address input_B, user_idNumber = idNumber input_B,
              user_createdAt = 3000\<rparr> \<and>
   getUserById (db_A\<lparr>userStore := [user_A, user_B]\<rparr>) ''u-2'' = Some user_B \<and>
   balance_A2 = \<lparr>balance_id = ''b-2'', balance_userId = userId input_A2,
            balance_amount = amount input_A2, balance_month = month input_A2,
            balance_description = description input_A2, balance_createdAt = 3000\<rparr> \<and>
   balance_A2 \<in> set (getAllBalances (db_A\<lparr>balanceStore := [balance_A1, balance_A2]\<rparr>))"
  using add_keeps_supplied_fields [where uuid = "''u-2''" and now = 3000 and db = db_A
      and input = input_B and u = user_B and db' = "db_A\<lparr>userStore := [user_A, user_B]\<rparr>"
      and uuid' = "''b-2''" and now' = 3000 and input' = input_A2 and b = balance_A2
      and db'' = "db_A\<lparr>balanceStore := [balance_A1, balance_A2]\<rparr>"]
    addUser_example addBalance_example
  by simp

section \<open>Claims about Reports\<close>



lemma mset_sortByCreatedAtDesc [simp]: "mset (sortByCreatedAtDesc bs) = mset bs"
  by (simp add: sortByCreatedAtDesc_def)

lemma length_sortByCreatedAtDesc [simp]: "length (sortByCreatedAtDesc bs) = length bs"
  by (simp add: sortByCreatedAtDesc_def)




lemma sortByCreatedAtDesc_Nil_iff [simp]: "sortByCreatedAtDesc bs = [] \<longleftrightarrow> bs = []"
  by (metis length_sortByCreatedAtDesc length_0_conv)

lemma sortByCreatedAtDesc_Nil [simp]: "sortByCreatedAtDesc [] = []"
  by (simp add: sortByCreatedAtDesc_def)


lemma rendered_eq: "rendered bs = sortByCreatedAtDesc bs"
  by (cases bs) (simp_all add: rendered_def sortByCreatedAtDesc_def)









lemma foldl_js_add_exact:
  "exactly_summable s xs \<Longrightarrow>
     foldl js_add (Finite s) xs = Finite (s + sum_list (map finite_value xs))"
proof (induction s xs rule: exactly_summable.induct)
  case (1 s)
  show ?case by simp
next
  case (2 s a xs)
  then show ?case by (simp add: add.assoc)
qed simp_all

lemma totalBalance_userSummary:
  "totalBalance (userSummary bs u) = foldl js_add (Finite 0) (userAmounts bs u)"
  by (simp add: userSummary_def userAmounts_def Let_def foldl_map)

lemma balanceCount_userSummary:
  "balanceCount (userSummary bs u) =
     length (filter (\<lambda>b. balance_userId b = user_id u) bs)"
  by (simp add: userSummary_def Let_def)

lemma length_filter_mset:
  assumes "mset xs = mset ys"
  shows "length (filter P xs) = length (filter P ys)"
proof -
  have "mset (filter P xs) = mset (filter P ys)"
    using assms by simp
  then show ?thesis by (rule mset_eq_length)
qed

lemma sum_userAmounts_mset:
  assumes "mset xs = mset ys"
  shows "sum_list (map finite_value (userAmounts xs u)) =
         sum_list (map finite_value (userAmounts ys u))"
proof -
  have "mset (userAmounts xs u) = mset (userAmounts ys u)"
    using assms by (simp add: userAmounts_def)
  then have "mset (map finite_value (userAmounts xs u)) =
             mset (map finite_value (userAmounts ys u))"
    by simp
  then show ?thesis
    by (metis sum_mset_sum_list)
qed

lemma floorlog_2_one: "floorlog 2 (Suc 0) = 1"
  by (simp add: compute_floorlog)

lemma ilog2_nat_one:
  assumes "0 < n"
  shows "ilog2 (int n) 1 = int (floorlog 2 n) - 1"
proof -
  have pos: "0 < floorlog 2 n"
    using assms by (simp add: floorlog_eq_zero_iff Suc_le_eq flip: neq0_conv)
  have "2 ^ (floorlog 2 n - 1) \<le> n"
    using floorlog_bounds [of n 2] assms by simp
  then have "(2::int) ^ (floorlog 2 n - 1) \<le> int n"
    by (metis of_nat_le_iff of_nat_numeral of_nat_power)
  moreover have "nat (int (floorlog 2 n) - 1) = floorlog 2 n - 1"
    by simp
  ultimately show ?thesis
    using pos by (simp add: ilog2_def Let_def floorlog_2_one)
qed

lemma round_half_even_one: "round_half_even n 1 = n"
  by (simp add: round_half_even_def Let_def)

lemma round_binary64_eval:
  assumes "q \<noteq> 0" and "quotient_of \<bar>q\<bar> = (n, d)" and "ilog2 n d = e"
    and "max (e - 52) (- 1074) = p"
    and "(if 0 \<le> p then round_half_even n (d * 2 ^ nat p)
          else round_half_even (n * 2 ^ nat (- p)) d) = m"
    and "of_int m * 2 powi p = r" and "r < 2 ^ 1024"
  shows "round_binary64 q = Finite (sgn q * r)"
proof -
  have "round_binary64 q =
      (if q = 0 then Finite 0
       else if 2 ^ 1024 \<le> r then (if 0 < q then PosInfinity else NegInfinity)
            else Finite (sgn q * r))"
    unfolding round_binary64_def Let_def assms(2) case_prod_conv assms(3) assms(4)
      assms(5) assms(6) ..
  then show ?thesis
    using assms(1,7) by simp
qed

lemma round_binary64_of_nat:
  assumes "n \<le> 2 ^ 53"
  shows "round_binary64 (of_nat n) = Finite (of_nat n)"
proof (cases "n = 0")
  case True
  then show ?thesis by (simp add: round_binary64_def)
next
  case False
  then have n: "0 < n" by simp
  define L where "L = floorlog 2 n"
  have Lpos: "0 < L"
    using n by (simp add: L_def floorlog_eq_zero_iff flip: neq0_conv)
  have lo: "2 ^ (L - 1) \<le> n"
    using floorlog_bounds [of n 2] n by (simp add: L_def)
  have "n < 2 ^ 54"
    using assms by (rule le_less_trans) simp
  then have L54: "L \<le> 54"
    unfolding L_def by (intro floorlog_leI) simp_all
  have e: "ilog2 (int n) 1 = int L - 1"
    using ilog2_nat_one [OF n] by (simp add: L_def)
  have "quotient_of (of_int (int n)) = (int n, 1)"
    by (simp add: of_int_rat quotient_of_Fract Rat.normalize_def)
  then have q: "quotient_of \<bar>of_nat n\<bar> = (int n, 1)"
    by simp
  have nz: "(of_nat n :: rat) \<noteq> 0" using n by simp
  have sg: "sgn (of_nat n :: rat) = 1" using n by simp
  have small: "(of_nat n :: rat) < 2 ^ 1024"
  proof -
    have "(of_nat n :: rat) \<le> of_nat (2 ^ 53)" using assms by (simp only: of_nat_le_iff)
    also have "\<dots> < 2 ^ 1024" by simp
    finally show ?thesis .
  qed
  have p: "max (int L - 1 - 52) (- 1074) = int L - 53"
    using Lpos by simp
  show ?thesis
  proof (cases "L = 54")
    case True
    then have "2 ^ 53 \<le> n" using lo by simp
    with assms have n53: "n = 2 ^ 53" by simp
    have "ilog2 9007199254740992 1 = 53"
      by (simp add: ilog2_def compute_floorlog Let_def)
    then show ?thesis
      unfolding n53 by (simp add: round_binary64_def round_half_even_def Let_def)
  next
    case False
    with L54 have L53: "int L - 53 \<le> 0" by simp
    define m where "m = int n * 2 ^ nat (53 - int L)"
    have m: "(if 0 \<le> int L - 53 then round_half_even (int n) (1 * 2 ^ nat (int L - 53))
          else round_half_even (int n * 2 ^ nat (- (int L - 53))) 1) = m"
    proof (cases "int L - 53 = 0")
      case True
      then show ?thesis by (simp add: m_def round_half_even_one)
    next
      case False
      with L53 have "int L - 53 < 0" by simp
      then show ?thesis by (simp add: m_def round_half_even_one)
    qed
    have "(2::rat) powi (int L - 53) = inverse (2 ^ nat (53 - int L))"
    proof (cases "int L - 53 = 0")
      case True
      then show ?thesis by simp
    next
      case False
      with L53 have "int L - 53 < 0" by simp
      then show ?thesis
        by (simp add: power_int_def power_one_over inverse_eq_divide)
    qed
    then have r: "of_int m * 2 powi (int L - 53) = (of_nat n :: rat)"
      by (simp add: m_def)
    have "round_binary64 (of_nat n) = Finite (sgn (of_nat n) * of_nat n)"
      by (rule round_binary64_eval [OF nz q e p m r small])
    then show ?thesis by (simp only: sg mult_1)
  qed
qed

lemma exactly_summable_of_nat:
  "k + sum_list ns \<le> 2 ^ 53 \<Longrightarrow>
     exactly_summable (of_nat k) (map (\<lambda>n. Finite (of_nat n)) ns)"
proof (induction ns arbitrary: k)
  case Nil
  show ?case by simp
next
  case (Cons n ns)
  have "k + n \<le> 2 ^ 53" using Cons.prems by simp
  then have "round_binary64 (of_nat (k + n)) = Finite (of_nat (k + n))"
    by (rule round_binary64_of_nat)
  moreover have "exactly_summable (of_nat (k + n)) (map (\<lambda>n. Finite (of_nat n)) ns)"
    using Cons.prems by (intro Cons.IH) simp
  ultimately show ?case by simp
qed

lemma whole_amounts_map:
  "\<forall>a \<in> set as. \<exists>n::nat. a = Finite (of_nat n) \<Longrightarrow>
     \<exists>ns. as = map (\<lambda>n. Finite (of_nat n)) ns"
proof (induction as)
  case Nil
  show ?case by simp
next
  case (Cons a as)
  then obtain n :: nat and ns where "a = Finite (of_nat n)"
    and "as = map (\<lambda>n. Finite (of_nat n)) ns"
    by auto
  then have "a # as = map (\<lambda>n. Finite (of_nat n)) (n # ns)" by simp
  then show ?case by (rule exI)
qed

lemma sum_list_finite_value_of_nat:
  "sum_list (map finite_value (map (\<lambda>n. Finite (of_nat n)) ns)) = of_nat (sum_list ns)"
  by (induction ns) simp_all

lemma whole_amounts_exact:
  assumes "\<forall>a \<in> set as. \<exists>n::nat. a = Finite (of_nat n)"
    and "sum_list (map finite_value as) \<le> 2 ^ 53"
  shows "exactly_summable 0 as"
proof -
  from assms(1) obtain ns where as: "as = map (\<lambda>n. Finite (of_nat n)) ns"
    using whole_amounts_map by blast
  have "(of_nat (sum_list ns) :: rat) \<le> of_nat (2 ^ 53)"
    using assms(2) unfolding as sum_list_finite_value_of_nat by simp
  then have "0 + sum_list ns \<le> 2 ^ 53"
    by (simp only: of_nat_le_iff add_0)
  then have "exactly_summable (of_nat 0) (map (\<lambda>n. Finite (of_nat n)) ns)"
    by (rule exactly_summable_of_nat)
  then show ?thesis by (simp add: as)
qed

lemma mset_userAmounts:
  "mset xs' = mset xs \<Longrightarrow> mset (userAmounts xs' u) = mset (userAmounts xs u)"
  by (simp add: userAmounts_def)

text \<open>
  Claim C5, as amended.  The summaries of the component are computed per user from the
  balances as the render has left them, a permutation of the snapshot.  For every list of
  balances and every user: the count is the number of the user's balances in the list, and
  it does not depend on their order; the total is the binary64 sum of the user's amounts,
  added to 0 from left to right; whenever none of these additions rounds, the total is the
  arithmetic sum of the amounts.  When the amounts of the user are whole numbers and their
  arithmetic sum is at most \<open>2 ^ 53\<close>, no addition rounds in any order: every
  permutation of the list gives the arithmetic sum as total.
\<close>

theorem userSummary_total_and_count:
  "userSummaries (Reports us bs) = map (userSummary (rendered bs)) us \<and>
   mset (rendered bs) = mset bs \<and>
   balanceCount (userSummary xs u) =
     length (filter (\<lambda>b. balance_userId b = user_id u) xs) \<and>
   (mset xs' = mset xs \<longrightarrow>
      balanceCount (userSummary xs' u) = balanceCount (userSummary xs u)) \<and>
   totalBalance (userSummary xs u) = foldl js_add (Finite 0) (userAmounts xs u) \<and>
   (exactly_summable 0 (userAmounts xs u) \<longrightarrow>
      totalBalance (userSummary xs u) =
        Finite (sum_list (map finite_value (userAmounts xs u)))) \<and>
   ((\<forall>a \<in> set (userAmounts xs u). \<exists>n::nat. a = Finite (of_nat n)) \<and>
    sum_list (map finite_value (userAmounts xs u)) \<le> 2 ^ 53 \<and> mset xs' = mset xs \<longrightarrow>
      totalBalance (userSummary xs' u) =
        Finite (sum_list (map finite_value (userAmounts xs u))))"
proof (intro conjI impI)
  show "userSummaries (Reports us bs) = map (userSummary (rendered bs)) us"
    by (simp add: Reports_def)
  show "mset (rendered bs) = mset bs"
    by (simp add: rendered_eq)
  show "balanceCount (userSummary xs u) =
      length (filter (\<lambda>b. balance_userId b = user_id u) xs)"
    by (rule balanceCount_userSummary)
  show "balanceCount (userSummary xs' u) = balanceCount (userSummary xs u)"
    if "mset xs' = mset xs"
    unfolding balanceCount_userSummary using that by (rule length_filter_mset)
  show "totalBalance (userSummary xs u) = foldl js_add (Finite 0) (userAmounts xs u)"
    by (rule totalBalance_userSummary)
  show "totalBalance (userSummary xs u) =
      Finite (sum_list (map finite_value (userAmounts xs u)))"
    if "exactly_summable 0 (userAmounts xs u)"
    unfolding totalBalance_userSummary using foldl_js_add_exact [OF that] by simp
next
  assume a: "(\<forall>a \<in> set (userAmounts xs u). \<exists>n::nat. a = Finite (of_nat n)) \<and>
    sum_list (map finite_value (userAmounts xs u)) \<le> 2 ^ 53 \<and> mset xs' = mset xs"
  note w = a [THEN conjunct1] and bnd = a [THEN conjunct2, THEN conjunct1]
    and mm = a [THEN conjunct2, THEN conjunct2]
  have m: "mset (userAmounts xs' u) = mset (userAmounts xs u)"
    using mm by (rule mset_userAmounts)
  then have "set (userAmounts xs' u) = set (userAmounts xs u)"
    by (rule mset_eq_setD)
  then have whole: "\<forall>a \<in> set (userAmounts xs' u). \<exists>n::nat. a = Finite (of_nat n)"
    using w by (simp only:)
  have s: "sum_list (map finite_value (userAmounts xs' u)) =
      sum_list (map finite_value (userAmounts xs u))"
    using mm by (rule sum_userAmounts_mset)
  have "sum_list (map finite_value (userAmounts xs' u)) \<le> 2 ^ 53"
    using bnd by (simp only: s)
  with whole have "exactly_summable 0 (userAmounts xs' u)"
    by (rule whole_amounts_exact)
  then have "totalBalance (userSummary xs' u) =
      Finite (0 + sum_list (map finite_value (userAmounts xs' u)))"
    unfolding totalBalance_userSummary by (rule foldl_js_add_exact)
  then show "totalBalance (userSummary xs' u) =
      Finite (sum_list (map finite_value (userAmounts xs u)))"
    by (simp only: s add_0)
qed

theorem userSummary_total_and_count_witness:
  "mset [balance_A2, balance_X, balance_A1] = mset [balance_A1, balance_X, balance_A2] \<and>
   userAmounts [balance_A1, balance_X, balance_A2] user_A = [Finite 100, Finite 50] \<and>
   exactly_summable 0 [Finite 100, Finite 50] \<and>
   balanceCount (userSummary [balance_A1, balance_X, balance_A2] user_A) = 2 \<and>
   balanceCount (userSummary [balance_A2, balance_X, balance_A1] user_A) = 2 \<and>
   totalBalance (userSummary [balance_A1, balance_X, balance_A2] user_A) = Finite 150 \<and>
   totalBalance (userSummary [balance_A2, balance_X, balance_A1] user_A) = Finite 150 \<and>
   map totalBalance
     (userSummaries (Reports [user_A, user_C] [balance_A1, balance_X, balance_A2])) =
     [Finite 150, Finite 0]"
proof -
  let ?bs = "[balance_A1, balance_X, balance_A2]" and ?bs' = "[balance_A2, balance_X, balance_A1]"
  note main = userSummary_total_and_count [of "[user_A, user_C]" ?bs ?bs user_A ?bs']
  note p1 = main [THEN conjunct1]
    and p3 = main [THEN conjunct2, THEN conjunct2, THEN conjunct1]
    and p4 = main [THEN conjunct2, THEN conjunct2, THEN conjunct2, THEN conjunct1,
      rule_format]
    and p6 = main [THEN conjunct2, THEN conjunct2, THEN conjunct2, THEN conjunct2,
      THEN conjunct2, THEN conjunct1, rule_format]
    and p7 = main [THEN conjunct2, THEN conjunct2, THEN conjunct2, THEN conjunct2,
      THEN conjunct2, THEN conjunct2, rule_format]
  have m: "mset ?bs' = mset ?bs"
    by (simp add: add.commute)
  have r: "rendered ?bs = ?bs'"
    by (simp add: rendered_def sortByCreatedAtDesc_def balance_A1_def balance_A2_def
          balance_X_def)
  have f: "filter (\<lambda>b. balance_userId b = user_id user_A) ?bs = [balance_A1, balance_A2]"
    by (simp add: balance_A1_def balance_A2_def balance_X_def user_A_def)
  have a: "userAmounts ?bs user_A = [Finite 100, Finite 50]"
    by (simp add: userAmounts_def balance_A1_def balance_A2_def balance_X_def user_A_def)
  have whole: "\<forall>a \<in> set (userAmounts ?bs user_A). \<exists>n::nat. a = Finite (of_nat n)"
  proof -
    have "Finite 100 = Finite (of_nat 100)" and "Finite 50 = Finite (of_nat 50)"
      by simp_all
    then show ?thesis unfolding a by (metis set_ConsD empty_iff empty_set)
  qed
  have bound: "sum_list (map finite_value (userAmounts ?bs user_A)) \<le> 2 ^ 53"
    unfolding a by simp
  have ex: "exactly_summable 0 [Finite 100, Finite 50]"
    using whole_amounts_exact [OF whole bound] by (simp only: a)
  have c1: "balanceCount (userSummary ?bs user_A) = 2"
    unfolding p3 f by simp
  have c2: "balanceCount (userSummary ?bs' user_A) = 2"
    using p4 [OF m] c1 by simp
  have "totalBalance (userSummary ?bs user_A) =
      Finite (sum_list (map finite_value (userAmounts ?bs user_A)))"
    using ex by (intro p6) (simp only: a)
  then have t1: "totalBalance (userSummary ?bs user_A) = Finite 150"
    unfolding a by simp
  have "totalBalance (userSummary ?bs' user_A) =
      Finite (sum_list (map finite_value (userAmounts ?bs user_A)))"
    using whole bound m by (intro p7) simp
  then have t2: "totalBalance (userSummary ?bs' user_A) = Finite 150"
    unfolding a by simp
  have "userAmounts ?bs' user_C = []"
    by (simp add: userAmounts_def balance_A1_def balance_A2_def balance_X_def user_C_def)
  then have t3: "totalBalance (userSummary ?bs' user_C) = Finite 0"
    by (simp add: totalBalance_userSummary)
  have t4: "map totalBalance (userSummaries (Reports [user_A, user_C] ?bs)) =
      [Finite 150, Finite 0]"
    unfolding p1 r using t2 t3 by simp
  show ?thesis using m a ex c1 c2 t1 t2 t4 by blast
qed

lemma ilog2_examples:
  "ilog2 1 1 = 0" "ilog2 2 1 = 1" "ilog2 50 1 = 5" "ilog2 100 1 = 6" "ilog2 150 1 = 7"
  "ilog2 9007199254740992 1 = 53"
  "ilog2 9007199254740993 1 = 53"
  "ilog2 9007199254740994 1 = 53"
  by (simp_all add: ilog2_def compute_floorlog Let_def)

lemma round_binary64_examples:
  "round_binary64 1 = Finite 1"
  "round_binary64 2 = Finite 2"
  "round_binary64 50 = Finite 50"
  "round_binary64 100 = Finite 100"
  "round_binary64 150 = Finite 150"
  "round_binary64 9007199254740992 = Finite 9007199254740992"
  "round_binary64 9007199254740993 = Finite 9007199254740992"
  "round_binary64 9007199254740994 = Finite 9007199254740994"
  by (simp_all add: round_binary64_def ilog2_examples round_half_even_def Let_def)

text \<open>
  Claim C5 as stated fails on binary64 amounts.  Three balances of user \<open>u-1\<close> with the
  same \<open>createdAt\<close> and the amounts \<open>2 ^ 53\<close>, \<open>1\<close> and \<open>1\<close>: in this order the component
  shows the total \<open>2 ^ 53\<close>, which is not the arithmetic sum \<open>2 ^ 53 + 2\<close>; with the
  large amount last, the same balances give the total \<open>2 ^ 53 + 2\<close>.
\<close>

theorem userSummary_total_counterexample:
  "mset [one_2, one_3, big_1] = mset [big_1, one_2, one_3] \<and>
   userAmounts [big_1, one_2, one_3] user_A =
     [Finite 9007199254740992, Finite 1, Finite 1] \<and>
   map totalBalance (userSummaries (Reports [user_A] [big_1, one_2, one_3])) =
     [Finite 9007199254740992] \<and>
   map totalBalance (userSummaries (Reports [user_A] [one_2, one_3, big_1])) =
     [Finite 9007199254740994]"
proof -
  have r1: "rendered [big_1, one_2, one_3] = [big_1, one_2, one_3]"
    by (simp add: rendered_def sortByCreatedAtDesc_def big_1_def one_2_def one_3_def)
  have r2: "rendered [one_2, one_3, big_1] = [one_2, one_3, big_1]"
    by (simp add: rendered_def sortByCreatedAtDesc_def big_1_def one_2_def one_3_def)
  have a1: "userAmounts [big_1, one_2, one_3] user_A =
      [Finite 9007199254740992, Finite 1, Finite 1]"
    by (simp add: userAmounts_def big_1_def one_2_def one_3_def user_A_def)
  have a2: "userAmounts [one_2, one_3, big_1] user_A =
      [Finite 1, Finite 1, Finite 9007199254740992]"
    by (simp add: userAmounts_def big_1_def one_2_def one_3_def user_A_def)
  have t1: "map totalBalance (userSummaries (Reports [user_A] [big_1, one_2, one_3])) =
      [Finite 9007199254740992]"
    by (simp add: Reports_def totalBalance_userSummary r1 a1 round_binary64_examples)
  have t2: "map totalBalance (userSummaries (Reports [user_A] [one_2, one_3, big_1])) =
      [Finite 9007199254740994]"
    by (simp add: Reports_def totalBalance_userSummary r2 a2 round_binary64_examples)
  have m: "mset [one_2, one_3, big_1] = mset [big_1, one_2, one_3]"
    by (simp add: add.commute)
  show ?thesis using m a1 t1 t2 by blast
qed

section \<open>Claims about DataManagement\<close>






end
